theory Spec2Isabelle
  imports
    Main
    "HOL-Library.Char_ord"
    "HOL-Library.List_Lexorder"
    "HOL-Library.Product_Lexorder"
    "HOL-Library.Multiset"
    "HOL-Library.Sublist"
begin

section \<open>The todo application: persistence layer and server actions\<close>

text \<open>
  The development embeds \<^verbatim>\<open>src/lib/database.ts\<close> (the object \<^verbatim>\<open>todoQueries\<close>
  over a SQLite file), the server actions built on it (\<^verbatim>\<open>createTodoAction\<close>,
  \<^verbatim>\<open>toggleTodoAction\<close>, \<^verbatim>\<open>updateTodoAction\<close>, \<^verbatim>\<open>searchTodosAction\<close>, ...) and the
  optimistic reducer of the \<^verbatim>\<open>TodoItem\<close> component.

  Conventions of the embedding.
  \<^item> A JavaScript string is a \<open>string\<close>; one \<open>char\<close> stands for one code unit, so
    \<open>length\<close> is the \<^verbatim>\<open>.length\<close> of the source. Code units above 255 are outside the
    model.
  \<^item> The SQLite file is a value of the record \<open>database\<close>: the rows of table
    \<^verbatim>\<open>todos\<close> in rowid order, the AUTOINCREMENT counter of that table, and the rows
    of table \<^verbatim>\<open>categories\<close>. Every function that writes returns the new file.
  \<^item> \<^verbatim>\<open>CURRENT_TIMESTAMP\<close> is the argument \<open>now\<close>, a number of seconds: SQLite
    renders it as a fixed-width text \<^verbatim>\<open>YYYY-MM-DD HH:MM:SS\<close>, whose text order is
    the order of these numbers.
  \<^item> A JavaScript exception is a value of the type \<open>js_error\<close>, returned with \<open>Inl\<close>.
    Failures of the storage engine itself (I/O, a full disk, the length limit of a
    LIKE pattern) are not modelled.
\<close>

subsection \<open>Rows and objects\<close>

type_synonym timestamp = nat

text \<open>A row of table \<^verbatim>\<open>todos\<close>. Column \<^verbatim>\<open>completed\<close> holds an integer; columns
  \<^verbatim>\<open>category\<close> and \<^verbatim>\<open>priority\<close> are nullable text (\<open>None\<close> is NULL).\<close>

record row =
  r_id :: nat
  r_title :: string
  r_completed :: int
  r_category :: "string option"
  r_priority :: "string option"
  r_created_at :: timestamp
  r_updated_at :: timestamp

text \<open>The interface \<^verbatim>\<open>Todo\<close>.\<close>

record Todo =
  todo_id :: nat
  title :: string
  completed :: bool
  category :: "string option"
  priority :: "string option"
  createdAt :: timestamp
  updatedAt :: timestamp

text \<open>A row of table \<^verbatim>\<open>categories\<close>, and the interface \<^verbatim>\<open>Category\<close>.\<close>

record cat_row =
  c_id :: nat
  c_name :: string
  c_color :: string

record Category =
  cat_id :: nat
  name :: string
  color :: string
  cat_count :: nat

record database =
  todos :: "row list"
  todos_seq :: nat
  categories :: "cat_row list"

datatype js_error = TypeError | SqliteError

text \<open>\<^verbatim>\<open>{...row, completed: Boolean(row.completed)}\<close>\<close>

definition to_todo :: "row \<Rightarrow> Todo" where
  "to_todo r =
     \<lparr>todo_id = r_id r, title = r_title r, completed = (r_completed r \<noteq> 0),
      category = r_category r, priority = r_priority r,
      createdAt = r_created_at r, updatedAt = r_updated_at r\<rparr>"

text \<open>\<^verbatim>\<open>value ? 1 : 0\<close>\<close>

definition of_boolean :: "bool \<Rightarrow> int" where
  "of_boolean b = (if b then 1 else 0)"

subsection \<open>Opening the database\<close>

definition max_rowid :: "nat list \<Rightarrow> nat" where
  "max_rowid ids = fold max ids 0"

text \<open>\<^verbatim>\<open>INSERT OR IGNORE INTO categories (name, color) VALUES ...\<close>: a value whose name
  is already in the table (column \<^verbatim>\<open>name\<close> is UNIQUE) is skipped, any other is
  appended under the next rowid.\<close>

fun insert_or_ignore :: "(string \<times> string) list \<Rightarrow> cat_row list \<Rightarrow> cat_row list" where
  "insert_or_ignore [] tbl = tbl"
| "insert_or_ignore ((n, c) # vs) tbl =
     (if n \<in> set (map c_name tbl) then insert_or_ignore vs tbl
      else insert_or_ignore vs
             (tbl @ [\<lparr>c_id = Suc (max_rowid (map c_id tbl)), c_name = n, c_color = c\<rparr>]))"

definition default_categories :: "(string \<times> string) list" where
  "default_categories =
     [(''general'', ''#6366f1''), (''work'', ''#dc2626''),
      (''personal'', ''#059669''), (''shopping'', ''#d97706'')]"

text \<open>\<^verbatim>\<open>getDatabase\<close> runs the schema script when the process has no connection yet.
  The script is idempotent (\<^verbatim>\<open>CREATE TABLE IF NOT EXISTS\<close>, \<^verbatim>\<open>INSERT OR IGNORE\<close>),
  and nothing else writes table \<^verbatim>\<open>categories\<close>, so the model runs it at every call
  (see \<open>getDatabase_idem\<close>). A file that does not exist yet is \<open>new_file\<close>.\<close>

definition getDatabase :: "database \<Rightarrow> database" where
  "getDatabase db = db\<lparr>categories := insert_or_ignore default_categories (categories db)\<rparr>"

definition new_file :: database where
  "new_file = \<lparr>todos = [], todos_seq = 0, categories = []\<rparr>"

subsection \<open>Queries\<close>

text \<open>\<^verbatim>\<open>ORDER BY completed ASC, created_at DESC\<close>: the sort key of a row. SQL leaves the
  order of rows with equal keys open; the model keeps them in table order.\<close>

definition order_key :: "row \<Rightarrow> int \<times> int" where
  "order_key r = (r_completed r, - int (r_created_at r))"

definition getAll :: "database \<Rightarrow> Todo list" where
  "getAll db0 =
     (let db = getDatabase db0;
          rows = sort_key order_key (todos db)
      in map to_todo rows)"

definition getByCategory :: "string \<Rightarrow> database \<Rightarrow> Todo list" where
  "getByCategory cat db0 =
     (let db = getDatabase db0;
          rows = sort_key order_key (filter (\<lambda>r. r_category r = Some cat) (todos db))
      in map to_todo rows)"

text \<open>The LIKE operator of SQLite with its defaults. SQLite reads the pattern and the
  text as NUL-terminated strings: what follows the first code unit 0 of either takes no
  part in the match (\<open>c_string\<close>). On what is left (\<open>like\<close>), \<^verbatim>\<open>%\<close> matches any
  sequence of characters, \<^verbatim>\<open>_\<close> matches any one character, and any other character
  matches itself up to the case of the ASCII letters. There is no escape character.\<close>

definition c_string :: "string \<Rightarrow> string" where
  "c_string s = takeWhile (\<lambda>c. c \<noteq> CHR 0x00) s"

definition ascii_lower :: "char \<Rightarrow> char" where
  "ascii_lower c =
     (let n = (of_char c :: nat) in if 65 \<le> n \<and> n \<le> 90 then char_of (n + 32) else c)"

fun like :: "string \<Rightarrow> string \<Rightarrow> bool" where
  "like [] s = (s = [])"
| "like (p # ps) s =
     (if p = CHR ''%'' then
        (like ps s \<or> (case s of [] \<Rightarrow> False | c # cs \<Rightarrow> like (p # ps) cs))
      else
        (case s of [] \<Rightarrow> False
         | c # cs \<Rightarrow> (p = CHR ''_'' \<or> ascii_lower p = ascii_lower c) \<and> like ps cs))"

definition sqlite_like :: "string \<Rightarrow> string \<Rightarrow> bool" where
  "sqlite_like pattern s = like (c_string pattern) (c_string s)"

text \<open>\<^verbatim>\<open>WHERE title LIKE ?\<close> bound to \<^verbatim>\<open>`%${query}%`\<close>\<close>

definition search :: "string \<Rightarrow> database \<Rightarrow> Todo list" where
  "search query db0 =
     (let db = getDatabase db0;
          rows = sort_key order_key
                   (filter (\<lambda>r. sqlite_like (''%'' @ query @ ''%'') (r_title r)) (todos db))
      in map to_todo rows)"

text \<open>The argument of \<^verbatim>\<open>create\<close>: \<^verbatim>\<open>Omit<Todo, 'id' | 'createdAt' | 'updatedAt'>\<close>.\<close>

record new_todo =
  n_title :: string
  n_completed :: bool
  n_category :: string
  n_priority :: string

text \<open>\<^verbatim>\<open>.get(id)\<close> on \<^verbatim>\<open>SELECT ... FROM todos WHERE id = ?\<close>: the row or
  \<^verbatim>\<open>undefined\<close>; reading \<^verbatim>\<open>row.completed\<close> of \<^verbatim>\<open>undefined\<close> throws a TypeError.\<close>

definition get_row :: "nat \<Rightarrow> database \<Rightarrow> row option" where
  "get_row i db = find (\<lambda>r. r_id r = i) (todos db)"

definition read_back :: "nat \<Rightarrow> database \<Rightarrow> js_error + Todo" where
  "read_back i db = (case get_row i db of None \<Rightarrow> Inl TypeError | Some r \<Rightarrow> Inr (to_todo r))"

text \<open>\<^verbatim>\<open>create\<close>: the INSERT takes the next AUTOINCREMENT rowid (one more than the
  largest rowid the table ever held) and the defaults \<^verbatim>\<open>CURRENT_TIMESTAMP\<close> of both
  timestamp columns; the new row is then read back by \<^verbatim>\<open>lastInsertRowid\<close>.\<close>

definition create :: "new_todo \<Rightarrow> timestamp \<Rightarrow> database \<Rightarrow> (js_error + Todo) \<times> database" where
  "create todo now db0 =
     (let db = getDatabase db0;
          lastInsertRowid = Suc (max (todos_seq db) (max_rowid (map r_id (todos db))));
          r = \<lparr>r_id = lastInsertRowid, r_title = n_title todo,
               r_completed = of_boolean (n_completed todo),
               r_category = Some (n_category todo), r_priority = Some (n_priority todo),
               r_created_at = now, r_updated_at = now\<rparr>;
          db' = db\<lparr>todos := todos db @ [r], todos_seq := lastInsertRowid\<rparr>
      in (read_back lastInsertRowid db', db'))"

text \<open>The argument of \<^verbatim>\<open>update\<close>:
  \<^verbatim>\<open>Partial<Pick<Todo, 'title' | 'completed' | 'category' | 'priority'>>\<close>. The outer
  \<open>None\<close> is an absent key; \<^verbatim>\<open>updateTodoAction\<close> passes what \<^verbatim>\<open>FormData.get\<close>
  returned for category and priority, which is \<^verbatim>\<open>null\<close> (the inner \<open>None\<close>) for a
  missing form field.\<close>

record updates =
  u_title :: "string option"
  u_completed :: "bool option"
  u_category :: "string option option"
  u_priority :: "string option option"

definition no_fields :: "updates \<Rightarrow> bool" where
  "no_fields u \<longleftrightarrow>
     u_title u = None \<and> u_completed u = None \<and> u_category u = None \<and> u_priority u = None"

text \<open>\<^verbatim>\<open>SET ${fields}, updated_at = CURRENT_TIMESTAMP\<close> on one row.\<close>

definition set_fields :: "updates \<Rightarrow> timestamp \<Rightarrow> row \<Rightarrow> row" where
  "set_fields u now r =
     r\<lparr>r_title := (case u_title u of None \<Rightarrow> r_title r | Some t \<Rightarrow> t),
       r_completed := (case u_completed u of None \<Rightarrow> r_completed r | Some b \<Rightarrow> of_boolean b),
       r_category := (case u_category u of None \<Rightarrow> r_category r | Some c \<Rightarrow> c),
       r_priority := (case u_priority u of None \<Rightarrow> r_priority r | Some p \<Rightarrow> p),
       r_updated_at := now\<rparr>"

text \<open>\<^verbatim>\<open>update\<close>: with no key in \<^verbatim>\<open>updates\<close> the statement text is
  \<^verbatim>\<open>UPDATE todos SET , updated_at = ...\<close>, which \<^verbatim>\<open>prepare\<close> rejects. Otherwise the
  UPDATE rewrites the rows \<^verbatim>\<open>WHERE id = ?\<close> (none, when the id is not in the table),
  and the row is read back.\<close>

definition update :: "nat \<Rightarrow> updates \<Rightarrow> timestamp \<Rightarrow> database \<Rightarrow> (js_error + Todo) \<times> database" where
  "update i u now db0 =
     (let db = getDatabase db0 in
      if no_fields u then (Inl SqliteError, db)
      else
        let db' = db\<lparr>todos := map (\<lambda>r. if r_id r = i then set_fields u now r else r) (todos db)\<rparr>
        in (read_back i db', db'))"

text \<open>\<^verbatim>\<open>delete\<close> returns the run result, of which the model keeps \<^verbatim>\<open>changes\<close>.\<close>

definition delete :: "nat \<Rightarrow> database \<Rightarrow> nat \<times> database" where
  "delete i db0 =
     (let db = getDatabase db0
      in (length (filter (\<lambda>r. r_id r = i) (todos db)),
          db\<lparr>todos := filter (\<lambda>r. r_id r \<noteq> i) (todos db)\<rparr>))"

text \<open>\<^verbatim>\<open>getCategories\<close>: \<^verbatim>\<open>categories c LEFT JOIN todos t ON c.name = t.category\<close>,
  grouped by the category row, \<^verbatim>\<open>COUNT(t.id)\<close> per group, \<^verbatim>\<open>ORDER BY c.name\<close> in the
  binary collation (the order of \<open>string\<close>).\<close>

definition getCategories :: "database \<Rightarrow> Category list" where
  "getCategories db0 =
     (let db = getDatabase db0
      in map (\<lambda>c. \<lparr>cat_id = c_id c, name = c_name c, color = c_color c,
                   cat_count = length (filter (\<lambda>t. r_category t = Some (c_name c)) (todos db))\<rparr>)
             (sort_key c_name (categories db)))"

subsection \<open>Server actions\<close>

text \<open>The type \<^verbatim>\<open>ActionState\<close>; every action sets \<^verbatim>\<open>success\<close>.\<close>

record ActionState =
  success :: bool
  message :: "string option"
  error :: "string option"
  data :: "Todo option"

definition failure :: "string \<Rightarrow> ActionState" where
  "failure e = \<lparr>success = False, message = None, error = Some e, data = None\<rparr>"

text \<open>\<^verbatim>\<open>String.prototype.trim\<close> on the code units the model covers: the white space
  and line terminators below 256 are TAB, LF, VT, FF, CR, SP and NBSP.\<close>

definition is_space :: "char \<Rightarrow> bool" where
  "is_space c \<longleftrightarrow>
     c \<in> {CHR 0x09, CHR 0x0A, CHR 0x0B, CHR 0x0C, CHR 0x0D, CHR 0x20, CHR 0xA0}"

definition trim :: "string \<Rightarrow> string" where
  "trim s = rev (dropWhile is_space (rev (dropWhile is_space s)))"

text \<open>A \<^verbatim>\<open>FormData\<close> of text fields: \<^verbatim>\<open>get\<close> returns the value or \<^verbatim>\<open>null\<close>.
  \<^verbatim>\<open>formData.get(k) as string || d\<close> replaces \<^verbatim>\<open>null\<close> and the empty string.\<close>

type_synonym FormData = "string \<rightharpoonup> string"

definition or_default :: "string option \<Rightarrow> string \<Rightarrow> string" where
  "or_default v d = (case v of None \<Rightarrow> d | Some s \<Rightarrow> if s = [] then d else s)"

definition createTodoAction ::
  "ActionState \<Rightarrow> FormData \<Rightarrow> timestamp \<Rightarrow> database \<Rightarrow> ActionState \<times> database" where
  "createTodoAction prevState formData now db =
     (let title_field = formData ''title'';
          category_field = or_default (formData ''category'') ''general'';
          priority_field = or_default (formData ''priority'') ''medium''
      in case title_field of
           None \<Rightarrow> (failure ''Todo title is required'', db)
         | Some t \<Rightarrow>
             if t = [] \<or> length (trim t) = 0 then (failure ''Todo title is required'', db)
             else if length (trim t) > 200 then
               (failure ''Todo title must be less than 200 characters'', db)
             else
               (case create \<lparr>n_title = trim t, n_completed = False,
                             n_category = category_field, n_priority = priority_field\<rparr> now db of
                  (Inl e, db') \<Rightarrow> (failure ''Failed to create todo. Please try again.'', db')
                | (Inr newTodo, db') \<Rightarrow>
                    (\<lparr>success = True, message = Some ''Todo created successfully!'',
                      error = None, data = Some newTodo\<rparr>, db')))"

text \<open>\<^verbatim>\<open>toggleTodoAction\<close>: \<^verbatim>\<open>getAll\<close> opens the database, so the file it leaves
  when the todo is not found is \<open>getDatabase db\<close>.\<close>

definition toggleTodoAction :: "nat \<Rightarrow> timestamp \<Rightarrow> database \<Rightarrow> ActionState \<times> database" where
  "toggleTodoAction i now db =
     (let all_todos = getAll db
      in case find (\<lambda>t. todo_id t = i) all_todos of
           None \<Rightarrow> (failure ''Todo not found'', getDatabase db)
         | Some todo \<Rightarrow>
             (case update i \<lparr>u_title = None, u_completed = Some (\<not> completed todo),
                             u_category = None, u_priority = None\<rparr> now db of
                (Inl e, db') \<Rightarrow> (failure ''Failed to update todo. Please try again.'', db')
              | (Inr updatedTodo, db') \<Rightarrow>
                  (\<lparr>success = True,
                    message = Some (''Todo '' @
                      (if completed updatedTodo then ''completed'' else ''reopened'') @ ''!''),
                    error = None, data = Some updatedTodo\<rparr>, db')))"

definition deleteTodoAction :: "nat \<Rightarrow> database \<Rightarrow> ActionState \<times> database" where
  "deleteTodoAction i db =
     (case delete i db of
        (changes, db') \<Rightarrow>
          (\<lparr>success = True, message = Some ''Todo deleted successfully!'',
            error = None, data = None\<rparr>, db'))"

definition updateTodoAction ::
  "nat \<Rightarrow> ActionState \<Rightarrow> FormData \<Rightarrow> timestamp \<Rightarrow> database \<Rightarrow> ActionState \<times> database" where
  "updateTodoAction i prevState formData now db =
     (let title_field = formData ''title'';
          category_field = formData ''category'';
          priority_field = formData ''priority''
      in case title_field of
           None \<Rightarrow> (failure ''Todo title is required'', db)
         | Some t \<Rightarrow>
             if t = [] \<or> length (trim t) = 0 then (failure ''Todo title is required'', db)
             else if length (trim t) > 200 then
               (failure ''Todo title must be less than 200 characters'', db)
             else
               (case update i \<lparr>u_title = Some (trim t), u_completed = None,
                               u_category = Some category_field,
                               u_priority = Some priority_field\<rparr> now db of
                  (Inl e, db') \<Rightarrow> (failure ''Failed to update todo. Please try again.'', db')
                | (Inr updatedTodo, db') \<Rightarrow>
                    (\<lparr>success = True, message = Some ''Todo updated successfully!'',
                      error = None, data = Some updatedTodo\<rparr>, db')))"

definition searchTodosAction :: "string \<Rightarrow> database \<Rightarrow> Todo list" where
  "searchTodosAction query db =
     (if query = [] \<or> length (trim query) = 0 then getAll db
      else search (trim query) db)"

definition getTodosByCategoryAction :: "string \<Rightarrow> database \<Rightarrow> Todo list" where
  "getTodosByCategoryAction cat db =
     (if cat = ''all'' then getAll db else getByCategory cat db)"

subsection \<open>The optimistic reducer of \<^verbatim>\<open>TodoItem\<close>\<close>

datatype action_type = Toggle | Update | Delete

text \<open>\<^verbatim>\<open>Partial<Todo>\<close>: \<open>None\<close> is an absent key.\<close>

record partial_todo =
  p_id :: "nat option"
  p_title :: "string option"
  p_completed :: "bool option"
  p_category :: "string option option"
  p_priority :: "string option option"
  p_createdAt :: "timestamp option"
  p_updatedAt :: "timestamp option"

record todo_action =
  a_type :: action_type
  a_data :: "partial_todo option"

text \<open>\<^verbatim>\<open>{ ...currentTodo, ...action.data }\<close>\<close>

definition spread :: "Todo \<Rightarrow> partial_todo option \<Rightarrow> Todo" where
  "spread t d =
     (case d of
        None \<Rightarrow> t
      | Some p \<Rightarrow>
          \<lparr>todo_id = (case p_id p of None \<Rightarrow> todo_id t | Some v \<Rightarrow> v),
           title = (case p_title p of None \<Rightarrow> title t | Some v \<Rightarrow> v),
           completed = (case p_completed p of None \<Rightarrow> completed t | Some v \<Rightarrow> v),
           category = (case p_category p of None \<Rightarrow> category t | Some v \<Rightarrow> v),
           priority = (case p_priority p of None \<Rightarrow> priority t | Some v \<Rightarrow> v),
           createdAt = (case p_createdAt p of None \<Rightarrow> createdAt t | Some v \<Rightarrow> v),
           updatedAt = (case p_updatedAt p of None \<Rightarrow> updatedAt t | Some v \<Rightarrow> v)\<rparr>)"

definition optimistic_reducer :: "Todo \<Rightarrow> todo_action \<Rightarrow> Todo" where
  "optimistic_reducer currentTodo action =
     (case a_type action of
        Toggle \<Rightarrow> currentTodo\<lparr>completed := \<not> completed currentTodo\<rparr>
      | Update \<Rightarrow> spread currentTodo (a_data action)
      | Delete \<Rightarrow> currentTodo)"

subsection \<open>Well-formed files\<close>

text \<open>What the schema and the write paths guarantee of a file: \<^verbatim>\<open>id\<close> is the
  primary key, \<^verbatim>\<open>completed\<close> holds 0 or 1 (both \<^verbatim>\<open>create\<close> and \<^verbatim>\<open>update\<close>
  write \<^verbatim>\<open>value ? 1 : 0\<close>), and table \<^verbatim>\<open>categories\<close> is empty (a new file) or holds
  the four seeded rows.\<close>

definition seeded :: "cat_row list" where
  "seeded = insert_or_ignore default_categories []"

definition store_inv :: "database \<Rightarrow> bool" where
  "store_inv db \<longleftrightarrow>
     distinct (map r_id (todos db)) \<and>
     list_all (\<lambda>r. r_completed r = 0 \<or> r_completed r = 1) (todos db) \<and>
     (categories db = [] \<or> categories db = seeded)"

text \<open>Whether \<open>a\<close> occurs at an earlier position than \<open>b\<close>.\<close>

fun precedes :: "'a \<Rightarrow> 'a \<Rightarrow> 'a list \<Rightarrow> bool" where
  "precedes a b [] = False"
| "precedes a b (x # xs) = ((x = a \<and> b \<in> set xs) \<or> precedes a b xs)"

subsection \<open>A sample file\<close>

text \<open>Four todos, the first and the third created within the same second, and the
  seeded categories; \<open>initial_state\<close> is the state \<^verbatim>\<open>useActionState\<close> starts from.\<close>

definition sample_db :: database where
  "sample_db =
     \<lparr>todos =
        [\<lparr>r_id = 1, r_title = ''Buy Milk'', r_completed = 0, r_category = Some ''shopping'',
          r_priority = Some ''low'', r_created_at = 100, r_updated_at = 100\<rparr>,
         \<lparr>r_id = 2, r_title = ''Write report'', r_completed = 1, r_category = Some ''work'',
          r_priority = Some ''high'', r_created_at = 200, r_updated_at = 250\<rparr>,
         \<lparr>r_id = 3, r_title = ''Call mum'', r_completed = 0, r_category = Some ''personal'',
          r_priority = Some ''medium'', r_created_at = 100, r_updated_at = 100\<rparr>,
         \<lparr>r_id = 4, r_title = ''Plan trip'', r_completed = 0, r_category = Some ''personal'',
          r_priority = Some ''high'', r_created_at = 300, r_updated_at = 300\<rparr>],
      todos_seq = 4,
      categories = seeded\<rparr>"

text \<open>The four todos of the sample file as objects.\<close>

definition todo1 :: Todo where
  "todo1 = \<lparr>todo_id = 1, title = ''Buy Milk'', completed = False,
             category = Some ''shopping'', priority = Some ''low'',
             createdAt = 100, updatedAt = 100\<rparr>"

definition todo2 :: Todo where
  "todo2 = \<lparr>todo_id = 2, title = ''Write report'', completed = True,
             category = Some ''work'', priority = Some ''high'',
             createdAt = 200, updatedAt = 250\<rparr>"

definition todo3 :: Todo where
  "todo3 = \<lparr>todo_id = 3, title = ''Call mum'', completed = False,
             category = Some ''personal'', priority = Some ''medium'',
             createdAt = 100, updatedAt = 100\<rparr>"

definition todo4 :: Todo where
  "todo4 = \<lparr>todo_id = 4, title = ''Plan trip'', completed = False,
             category = Some ''personal'', priority = Some ''high'',
             createdAt = 300, updatedAt = 300\<rparr>"

text \<open>The order the clause \<^verbatim>\<open>ORDER BY completed ASC, created_at DESC\<close> asks for, on
  todos: \<open>a\<close> may stand before \<open>b\<close>.\<close>

definition todo_le :: "Todo \<Rightarrow> Todo \<Rightarrow> bool" where
  "todo_le a b \<longleftrightarrow>
     (\<not> completed a \<and> completed b) \<or> (completed a = completed b \<and> createdAt b \<le> createdAt a)"

text \<open>A file with two todos, the first with a code unit 0 in its title.\<close>

definition nul_db :: database where
  "nul_db =
     \<lparr>todos =
        [\<lparr>r_id = 1, r_title = ''x'' @ [CHR 0x00] @ ''milk'', r_completed = 0,
          r_category = Some ''general'', r_priority = Some ''medium'',
          r_created_at = 100, r_updated_at = 100\<rparr>,
         \<lparr>r_id = 2, r_title = ''a'', r_completed = 0,
          r_category = Some ''general'', r_priority = Some ''medium'',
          r_created_at = 200, r_updated_at = 200\<rparr>],
      todos_seq = 2,
      categories = seeded\<rparr>"

definition initial_state :: ActionState where
  "initial_state = \<lparr>success = False, message = Some [], error = Some [], data = None\<rparr>"

section \<open>Properties\<close>

subsection \<open>Reading rows\<close>

lemma todos_getDatabase [simp]: "todos (getDatabase db) = todos db"
  by (simp add: getDatabase_def)

lemma todos_seq_getDatabase [simp]: "todos_seq (getDatabase db) = todos_seq db"
  by (simp add: getDatabase_def)

lemma todo_id_to_todo [simp]: "todo_id (to_todo r) = r_id r"
  by (simp add: to_todo_def)

lemma find_to_todo:
  "find (\<lambda>t. todo_id t = i) (map to_todo rows) = map_option to_todo (find (\<lambda>r. r_id r = i) rows)"
  by (induction rows) simp_all

lemma find_None_sort_key:
  "find P (sort_key f xs) = None \<longleftrightarrow> find P xs = None"
  by (simp add: find_None_iff)

lemma find_unique:
  "distinct (map g xs) \<Longrightarrow> x \<in> set xs \<Longrightarrow> find (\<lambda>y. g y = g x) xs = Some x"
  by (induction xs) (auto simp: rev_image_eqI)

lemma find_sort_key_distinct:
  assumes "distinct (map g xs)"
  shows "find (\<lambda>y. g y = i) (sort_key f xs) = find (\<lambda>y. g y = i) xs"
proof (cases "find (\<lambda>y. g y = i) xs")
  case None
  then have "find (\<lambda>y. g y = i) (sort_key f xs) = None"
    by (simp add: find_None_iff)
  with None show ?thesis by simp
next
  case (Some x)
  then have x: "x \<in> set xs" "g x = i"
    by (auto simp: find_Some_iff)
  have d: "distinct (map g (sort_key f xs))"
    using assms by (metis distinct_map distinct_sort set_sort)
  have "find (\<lambda>y. g y = g x) (sort_key f xs) = Some x"
    using d x(1) by (intro find_unique) simp_all
  then show ?thesis using Some x(2) by simp
qed

lemma toggle_missing:
  assumes "i \<notin> set (map r_id (todos db))"
  shows "toggleTodoAction i now db = (failure ''Todo not found'', getDatabase db)"
proof -
  have "find (\<lambda>r. r_id r = i) (sort_key order_key (todos db)) = None"
    using assms by (auto simp: find_None_iff)
  then show ?thesis
    by (simp add: toggleTodoAction_def getAll_def find_to_todo)
qed

lemma map_missing:
  "i \<notin> set (map r_id rows) \<Longrightarrow> map (\<lambda>r. if r_id r = i then f r else r) rows = rows"
  by (induction rows) auto

lemma get_row_missing:
  "i \<notin> set (map r_id (todos db)) \<Longrightarrow> get_row i db = None"
  by (auto simp: get_row_def find_None_iff)

lemma update_missing:
  assumes "i \<notin> set (map r_id (todos db))"
  shows "update i u now db =
           (Inl (if no_fields u then SqliteError else TypeError), getDatabase db)"
proof -
  have "find (\<lambda>r. r_id r = i) (todos db) = None"
    using assms by (auto simp: find_None_iff)
  then show ?thesis
    using assms by (simp add: update_def Let_def read_back_def get_row_def map_missing)
qed

lemma sample_getDatabase: "getDatabase sample_db = sample_db"
  by (simp add: getDatabase_def sample_db_def seeded_def default_categories_def max_rowid_def)

subsection \<open>Trimming and blank strings\<close>

lemma dropWhile_all: "list_all P xs \<Longrightarrow> dropWhile P xs = []"
  by (induction xs) simp_all

lemma trim_blank: "list_all is_space s \<Longrightarrow> trim s = []"
  by (simp add: trim_def dropWhile_all)

lemma trim_empty_iff: "trim s = [] \<longleftrightarrow> list_all is_space s"
proof
  assume "trim s = []"
  then have a: "\<forall>x\<in>set (dropWhile is_space s). is_space x"
    by (simp add: trim_def dropWhile_eq_Nil_conv)
  have "dropWhile is_space s = []"
  proof (rule ccontr)
    assume n: "dropWhile is_space s \<noteq> []"
    then have "\<not> is_space (hd (dropWhile is_space s))"
      by (rule hd_dropWhile)
    moreover have "hd (dropWhile is_space s) \<in> set (dropWhile is_space s)"
      using n by simp
    ultimately show False using a by blast
  qed
  then show "list_all is_space s"
    by (simp add: dropWhile_eq_Nil_conv list_all_iff)
qed (rule trim_blank)

subsection \<open>Validation of the title on create\<close>

text \<open>
  Claim C5. For every title that is empty or consists of white space only,
  \<^verbatim>\<open>createTodoAction\<close> fails with the validation error \<^verbatim>\<open>Todo title is required\<close>
  and returns the file as it was: no row is persisted.
\<close>

theorem create_blank_title_rejected:
  assumes "formData ''title'' = Some t" and "list_all is_space t"
  shows "createTodoAction prevState formData now db = (failure ''Todo title is required'', db)"
  using assms by (simp add: createTodoAction_def trim_blank)

theorem create_blank_title_rejected_witness:
  "[''title'' \<mapsto> ''   ''] ''title'' = Some ''   '' \<and> list_all is_space ''   ''
   \<and> createTodoAction initial_state [''title'' \<mapsto> ''   ''] 300 sample_db =
       (failure ''Todo title is required'', sample_db)"
  using create_blank_title_rejected [where formData = "[''title'' \<mapsto> ''   '']"
      and t = "''   ''" and prevState = initial_state and now = 300 and db = sample_db]
  by (simp add: is_space_def)

subsection \<open>Searching with a blank query\<close>

lemma like_percent: "like ''%'' s"
  by (induction s) simp_all

lemma like_percent_percent: "like ''%%'' s"
  using like_percent by simp

lemma search_empty: "search [] db = getAll db"
  by (simp add: search_def getAll_def sqlite_like_def c_string_def like_percent_percent
      del: like.simps)

text \<open>
  Claim C8. For every file, \<^verbatim>\<open>searchTodosAction\<close> with an empty or white-space-only
  query returns the same sequence of todos as \<^verbatim>\<open>getAll\<close>, and so does the query
  \<^verbatim>\<open>search\<close> with the empty string.
\<close>

theorem blank_search_is_getAll:
  assumes "list_all is_space q"
  shows "searchTodosAction q db = getAll db \<and> search [] db = getAll db"
  using assms by (simp add: searchTodosAction_def trim_blank search_empty)

theorem blank_search_is_getAll_witness:
  "list_all is_space ''  ''
   \<and> searchTodosAction ''  '' sample_db = getAll sample_db
   \<and> search [] sample_db = getAll sample_db"
  using blank_search_is_getAll [where q = "''  ''" and db = sample_db]
  by (simp add: is_space_def)

text \<open>The blank query is recognised by the action, not by the query: \<^verbatim>\<open>search\<close>
  itself takes white space as text to be found in the title.\<close>

lemma search_spaces_sample: "search ''  '' sample_db = [] \<and> length (getAll sample_db) = 4"
  by code_simp

subsection \<open>Toggling a todo that does not exist\<close>

text \<open>
  Claim C10. For every id that is not in table \<^verbatim>\<open>todos\<close>, \<^verbatim>\<open>toggleTodoAction\<close>
  returns \<^verbatim>\<open>{success: false, error: 'Todo not found'}\<close> and leaves the rows of the
  table as they were (no UPDATE is run); \<^verbatim>\<open>update\<close> has no such check: called with
  the same id it runs its statement and fails when it reads the row back.
\<close>

theorem toggle_missing_id_not_found:
  assumes "i \<notin> set (map r_id (todos db))"
  shows "toggleTodoAction i now db =
           (\<lparr>success = False, message = None, error = Some ''Todo not found'', data = None\<rparr>,
            getDatabase db)
         \<and> todos (getDatabase db) = todos db
         \<and> (\<not> no_fields u \<longrightarrow> fst (update i u now db) = Inl TypeError)"
  using assms by (simp add: toggle_missing update_missing failure_def)

theorem toggle_missing_id_not_found_witness:
  "7 \<notin> set (map r_id (todos sample_db))
   \<and> toggleTodoAction 7 300 sample_db =
       (\<lparr>success = False, message = None, error = Some ''Todo not found'', data = None\<rparr>,
        sample_db)
   \<and> fst (update 7 \<lparr>u_title = None, u_completed = Some True, u_category = None,
                     u_priority = None\<rparr> 300 sample_db) = Inl TypeError"
  using toggle_missing_id_not_found [where i = 7 and db = sample_db and now = 300 and
      u = "\<lparr>u_title = None, u_completed = Some True, u_category = None, u_priority = None\<rparr>"]
  by (simp add: sample_getDatabase no_fields_def) (simp add: sample_db_def)

subsection \<open>Updating a row\<close>

lemma r_id_set_fields [simp]: "r_id (set_fields u now r) = r_id r"
  by (simp add: set_fields_def)

lemma find_map_same_id:
  "find (\<lambda>r. r_id r = i) (map (\<lambda>r. if r_id r = i then set_fields u now r else r) rows)
     = map_option (set_fields u now) (find (\<lambda>r. r_id r = i) rows)"
  by (induction rows) simp_all

lemma map_ids_update:
  "map r_id (map (\<lambda>r. if r_id r = i then set_fields u now r else r) rows) = map r_id rows"
  by (induction rows) simp_all

lemma filter_others_update:
  "filter (\<lambda>x. r_id x \<noteq> i) (map (\<lambda>r. if r_id r = i then set_fields u now r else r) rows)
     = filter (\<lambda>x. r_id x \<noteq> i) rows"
  by (induction rows) simp_all

lemma update_existing:
  assumes "get_row i db = Some r" and "\<not> no_fields u"
  shows "update i u now db =
           (Inr (to_todo (set_fields u now r)),
            (getDatabase db)\<lparr>todos :=
               map (\<lambda>x. if r_id x = i then set_fields u now x else x) (todos db)\<rparr>)"
  using assms
  by (simp add: update_def Let_def read_back_def get_row_def find_map_same_id)

lemma get_row_id: "get_row i db = Some r \<Longrightarrow> r_id r = i"
  by (auto simp: get_row_def find_Some_iff)

text \<open>
  Claim C9. For every id of a stored todo and every non-empty set of fields, \<^verbatim>\<open>update\<close>
  succeeds; the todo it returns has the id and the creation time of the old row, the
  current time as its update time, the new value in every field that was given and the
  old value in every other field; it is the row now stored under that id, and the other
  rows, all ids and all creation times of the table are as before.
\<close>

theorem update_frame:
  assumes "get_row i db = Some r" and "\<not> no_fields u"
  shows "\<exists>t. fst (update i u now db) = Inr t
           \<and> todo_id t = todo_id (to_todo r) \<and> createdAt t = createdAt (to_todo r)
           \<and> updatedAt t = now
           \<and> title t = (case u_title u of None \<Rightarrow> title (to_todo r) | Some v \<Rightarrow> v)
           \<and> completed t = (case u_completed u of None \<Rightarrow> completed (to_todo r) | Some v \<Rightarrow> v)
           \<and> category t = (case u_category u of None \<Rightarrow> category (to_todo r) | Some v \<Rightarrow> v)
           \<and> priority t = (case u_priority u of None \<Rightarrow> priority (to_todo r) | Some v \<Rightarrow> v)
           \<and> map_option to_todo (get_row i (snd (update i u now db))) = Some t
           \<and> filter (\<lambda>x. r_id x \<noteq> i) (todos (snd (update i u now db)))
               = filter (\<lambda>x. r_id x \<noteq> i) (todos db)
           \<and> map r_id (todos (snd (update i u now db))) = map r_id (todos db)
           \<and> map r_created_at (todos (snd (update i u now db))) = map r_created_at (todos db)"
proof -
  let ?f = "\<lambda>x. if r_id x = i then set_fields u now x else x"
  have upd: "update i u now db =
      (Inr (to_todo (set_fields u now r)), (getDatabase db)\<lparr>todos := map ?f (todos db)\<rparr>)"
    using assms by (rule update_existing)
  have readb: "get_row i ((getDatabase db)\<lparr>todos := map ?f (todos db)\<rparr>) = Some (set_fields u now r)"
    using assms(1) by (simp add: get_row_def find_map_same_id)
  have created: "map r_created_at (map ?f (todos db)) = map r_created_at (todos db)"
    by (simp add: set_fields_def)
  show ?thesis
    using readb created
    by (simp add: upd to_todo_def set_fields_def of_boolean_def map_ids_update
        filter_others_update split: option.split)
qed

theorem update_frame_witness:
  "get_row 1 sample_db = Some (hd (todos sample_db))
   \<and> \<not> no_fields \<lparr>u_title = None, u_completed = None, u_category = Some (Some ''work''),
                    u_priority = None\<rparr>
   \<and> (\<exists>t. fst (update 1 \<lparr>u_title = None, u_completed = None, u_category = Some (Some ''work''),
                          u_priority = None\<rparr> 300 sample_db) = Inr t
          \<and> todo_id t = 1 \<and> createdAt t = 100 \<and> updatedAt t = 300
          \<and> title t = ''Buy Milk'' \<and> completed t = False
          \<and> category t = Some ''work'' \<and> priority t = Some ''low'')"
proof -
  let ?u = "\<lparr>u_title = None, u_completed = None, u_category = Some (Some ''work''),
             u_priority = None\<rparr>"
  have h1: "get_row 1 sample_db = Some (hd (todos sample_db))"
    by (simp add: get_row_def sample_db_def)
  have h2: "\<not> no_fields ?u"
    by (simp add: no_fields_def)
  have old: "to_todo (hd (todos sample_db)) =
      \<lparr>todo_id = 1, title = ''Buy Milk'', completed = False, category = Some ''shopping'',
       priority = Some ''low'', createdAt = 100, updatedAt = 100\<rparr>"
    by (simp add: sample_db_def to_todo_def)
  from update_frame [OF h1 h2, of 300] obtain t where
    "fst (update 1 ?u 300 sample_db) = Inr t"
    "todo_id t = todo_id (to_todo (hd (todos sample_db)))"
    "createdAt t = createdAt (to_todo (hd (todos sample_db)))"
    "updatedAt t = 300"
    "title t = (case u_title ?u of None \<Rightarrow> title (to_todo (hd (todos sample_db))) | Some v \<Rightarrow> v)"
    "completed t =
       (case u_completed ?u of None \<Rightarrow> completed (to_todo (hd (todos sample_db))) | Some v \<Rightarrow> v)"
    "category t =
       (case u_category ?u of None \<Rightarrow> category (to_todo (hd (todos sample_db))) | Some v \<Rightarrow> v)"
    "priority t =
       (case u_priority ?u of None \<Rightarrow> priority (to_todo (hd (todos sample_db))) | Some v \<Rightarrow> v)"
    by blast
  then have "fst (update 1 ?u 300 sample_db) = Inr t
          \<and> todo_id t = 1 \<and> createdAt t = 100 \<and> updatedAt t = 300
          \<and> title t = ''Buy Milk'' \<and> completed t = False
          \<and> category t = Some ''work'' \<and> priority t = Some ''low''"
    by (simp add: old)
  then show ?thesis
    using h1 h2 by blast
qed

text \<open>
  Claim C1, evaluated on the code. For an id that is not in the table, \<^verbatim>\<open>update\<close>
  returns no todo: the UPDATE changes nothing and reading \<^verbatim>\<open>row.completed\<close> of the
  missing row throws a TypeError, which \<^verbatim>\<open>updateTodoAction\<close> reports with its generic
  message \<^verbatim>\<open>Failed to update todo. Please try again.\<close> The failure does not name
  the missing id, unlike the \<^verbatim>\<open>Todo not found\<close> of \<^verbatim>\<open>toggleTodoAction\<close>.
\<close>

theorem update_missing_id_type_error:
  assumes "i \<notin> set (map r_id (todos db))" and "\<not> no_fields u"
    and "formData ''title'' = Some t" and "1 \<le> length (trim t)" and "length (trim t) \<le> 200"
  shows "update i u now db = (Inl TypeError, getDatabase db)
         \<and> updateTodoAction i prevState formData now db =
             (\<lparr>success = False, message = None,
               error = Some ''Failed to update todo. Please try again.'', data = None\<rparr>,
              getDatabase db)"
proof -
  have tt: "trim t \<noteq> []"
    using assms(4) by auto
  then have t: "t \<noteq> []"
    by (cases t) (simp_all add: trim_def)
  have "update i \<lparr>u_title = Some (trim t), u_completed = None,
                  u_category = Some (formData ''category''),
                  u_priority = Some (formData ''priority'')\<rparr> now db
          = (Inl TypeError, getDatabase db)"
    using assms(1) by (simp add: update_missing no_fields_def)
  then show ?thesis
    using assms t tt by (simp add: update_missing updateTodoAction_def failure_def)
qed

lemma trim_id:
  assumes "s \<noteq> []" and "\<not> is_space (hd s)" and "\<not> is_space (last s)"
  shows "trim s = s"
proof -
  have a: "dropWhile is_space s = s"
    using assms(1,2) by (cases s) simp_all
  have "dropWhile is_space (rev s) = rev s"
    using assms(1,3) by (cases "rev s") (simp_all add: last_rev [symmetric] del: last_rev)
  then show ?thesis
    by (simp add: trim_def a)
qed

theorem update_missing_id_type_error_witness:
  "7 \<notin> set (map r_id (todos sample_db))
   \<and> update 7 \<lparr>u_title = Some ''Buy bread'', u_completed = None, u_category = None,
               u_priority = None\<rparr> 300 sample_db = (Inl TypeError, sample_db)
   \<and> updateTodoAction 7 initial_state
        [''title'' \<mapsto> ''Buy bread'', ''category'' \<mapsto> ''shopping'', ''priority'' \<mapsto> ''low'']
        300 sample_db =
       (\<lparr>success = False, message = None,
         error = Some ''Failed to update todo. Please try again.'', data = None\<rparr>, sample_db)"
proof -
  have h1: "7 \<notin> set (map r_id (todos sample_db))"
    by (simp add: sample_db_def)
  have tr: "trim ''Buy bread'' = ''Buy bread''"
    by (rule trim_id) (simp_all add: is_space_def)
  show ?thesis
    using h1 update_missing_id_type_error [where i = 7 and db = sample_db and now = 300
        and u = "\<lparr>u_title = Some ''Buy bread'', u_completed = None, u_category = None,
                  u_priority = None\<rparr>"
        and formData = "[''title'' \<mapsto> ''Buy bread'', ''category'' \<mapsto> ''shopping'',
                         ''priority'' \<mapsto> ''low'']"
        and t = "''Buy bread''" and prevState = initial_state]
    by (simp add: tr no_fields_def sample_getDatabase)
qed

subsection \<open>Toggling\<close>

lemma getAll_find:
  assumes "distinct (map r_id (todos db))"
  shows "find (\<lambda>t. todo_id t = i) (getAll db) = map_option to_todo (get_row i db)"
  using assms
  by (simp add: getAll_def find_to_todo get_row_def find_sort_key_distinct [where g = r_id])

lemma update_existing_row:
  assumes "get_row i db = Some r" and "\<not> no_fields u"
  shows "get_row i (snd (update i u now db)) = Some (set_fields u now r)"
  using assms(1) by (simp add: update_existing [OF assms] get_row_def find_map_same_id)

lemma update_existing_ids:
  assumes "get_row i db = Some r" and "\<not> no_fields u"
  shows "map r_id (todos (snd (update i u now db))) = map r_id (todos db)"
  by (simp add: update_existing [OF assms] map_ids_update)

lemma completed_set_fields:
  "u_completed u = Some b \<Longrightarrow> completed (to_todo (set_fields u now r)) = b"
  by (simp add: to_todo_def set_fields_def of_boolean_def)

lemma r_completed_set_fields:
  "u_completed u = Some b \<Longrightarrow> r_completed (set_fields u now r) = of_boolean b"
  by (simp add: set_fields_def)

lemma toggle_existing:
  assumes "distinct (map r_id (todos db))" and "get_row i db = Some r"
    and "u = \<lparr>u_title = None, u_completed = Some (\<not> completed (to_todo r)),
              u_category = None, u_priority = None\<rparr>"
  shows "toggleTodoAction i now db =
     (\<lparr>success = True,
       message = Some (''Todo '' @ (if completed (to_todo r) then ''reopened'' else ''completed'') @ ''!''),
       error = None,
       data = Some (to_todo (set_fields u now r))\<rparr>,
      snd (update i u now db))"
proof -
  have f: "find (\<lambda>t. todo_id t = i) (getAll db) = Some (to_todo r)"
    using assms(1,2) by (simp add: getAll_find)
  have n: "\<not> no_fields u"
    by (simp add: no_fields_def assms(3))
  have c: "completed (to_todo (set_fields u now r)) = (\<not> completed (to_todo r))"
    by (rule completed_set_fields) (simp add: assms(3))
  have "toggleTodoAction i now db =
      (case update i u now db of
         (Inl e, db') \<Rightarrow> (failure ''Failed to update todo. Please try again.'', db')
       | (Inr updatedTodo, db') \<Rightarrow>
           (\<lparr>success = True,
             message = Some (''Todo '' @
               (if completed updatedTodo then ''completed'' else ''reopened'') @ ''!''),
             error = None, data = Some updatedTodo\<rparr>, db'))"
    by (simp add: toggleTodoAction_def f assms(3))
  then show ?thesis
    by (simp add: update_existing [OF assms(2) n] c)
qed

text \<open>
  Claim C6. For every stored todo of a well-formed file, two successive calls of
  \<^verbatim>\<open>toggleTodoAction\<close> both succeed, the first returns the todo with the opposite
  completion value, the second returns it with the original one, and the stored value
  is the original one again. The optimistic reducer of \<^verbatim>\<open>TodoItem\<close> is its own
  inverse on the action \<^verbatim>\<open>toggle\<close>: applied twice it gives back the todo it started
  from.
\<close>

theorem toggle_twice_restores:
  assumes "store_inv db" and "get_row i db = Some r"
  shows "(case toggleTodoAction i t1 db of (s1, db1) \<Rightarrow>
           case toggleTodoAction i t2 db1 of (s2, db2) \<Rightarrow>
             success s1 \<and> map_option completed (data s1) = Some (\<not> completed (to_todo r))
             \<and> success s2 \<and> map_option completed (data s2) = Some (completed (to_todo r))
             \<and> map_option r_completed (get_row i db2) = Some (r_completed r))
         \<and> optimistic_reducer
              (optimistic_reducer todo \<lparr>a_type = Toggle, a_data = d1\<rparr>)
              \<lparr>a_type = Toggle, a_data = d2\<rparr> = todo"
proof -
  define c where "c = completed (to_todo r)"
  define u1 where "u1 = \<lparr>u_title = None, u_completed = Some (\<not> c),
                          u_category = None, u_priority = None\<rparr>"
  define r1 where "r1 = set_fields u1 t1 r"
  define db1 where "db1 = snd (update i u1 t1 db)"
  define u2 where "u2 = \<lparr>u_title = None, u_completed = Some (\<not> completed (to_todo r1)),
                          u_category = None, u_priority = None\<rparr>"
  define r2 where "r2 = set_fields u2 t2 r1"
  define db2 where "db2 = snd (update i u2 t2 db1)"
  have d: "distinct (map r_id (todos db))"
    using assms(1) by (simp add: store_inv_def)
  have bit: "r_completed r = 0 \<or> r_completed r = 1"
  proof -
    have "r \<in> set (todos db)"
      using assms(2) by (auto simp: get_row_def find_Some_iff)
    then show ?thesis
      using assms(1) by (auto simp: store_inv_def list_all_iff)
  qed
  have n1: "\<not> no_fields u1" and n2: "\<not> no_fields u2"
    by (simp_all add: no_fields_def u1_def u2_def)
  have g1: "get_row i db1 = Some r1"
    unfolding db1_def r1_def using assms(2) n1 by (rule update_existing_row)
  have d1: "distinct (map r_id (todos db1))"
    unfolding db1_def using d by (simp add: update_existing_ids [OF assms(2) n1])
  have g2: "get_row i db2 = Some r2"
    unfolding db2_def r2_def using g1 n2 by (rule update_existing_row)
  have c1: "completed (to_todo r1) = (\<not> c)"
    unfolding r1_def by (rule completed_set_fields) (simp add: u1_def)
  have c2: "completed (to_todo r2) = c"
    unfolding r2_def using c1 by (simp add: completed_set_fields [where b = c] u2_def)
  have s2: "r_completed r2 = of_boolean c"
    unfolding r2_def using c1 by (simp add: r_completed_set_fields [where b = c] u2_def)
  have same: "of_boolean c = r_completed r"
    using bit by (auto simp: c_def to_todo_def of_boolean_def)
  have step1: "toggleTodoAction i t1 db =
      (\<lparr>success = True,
        message = Some (''Todo '' @ (if completed (to_todo r) then ''reopened'' else ''completed'') @ ''!''),
        error = None, data = Some (to_todo r1)\<rparr>, db1)"
    unfolding r1_def db1_def using d assms(2) by (rule toggle_existing) (simp add: u1_def c_def)
  have step2: "toggleTodoAction i t2 db1 =
      (\<lparr>success = True,
        message = Some (''Todo '' @ (if completed (to_todo r1) then ''reopened'' else ''completed'') @ ''!''),
        error = None, data = Some (to_todo r2)\<rparr>, db2)"
    unfolding r2_def db2_def using d1 g1 by (rule toggle_existing) (simp add: u2_def)
  have red: "optimistic_reducer
              (optimistic_reducer todo \<lparr>a_type = Toggle, a_data = d1\<rparr>)
              \<lparr>a_type = Toggle, a_data = d2\<rparr> = todo"
    by (simp add: optimistic_reducer_def)
  show ?thesis
    using c1 c2 by (simp add: step1 step2 g2 s2 same red) (simp add: c_def)
qed

theorem toggle_twice_restores_witness:
  "store_inv sample_db \<and> get_row 1 sample_db = Some (hd (todos sample_db))
   \<and> (case toggleTodoAction 1 300 sample_db of (s1, db1) \<Rightarrow>
        case toggleTodoAction 1 400 db1 of (s2, db2) \<Rightarrow>
          success s1 \<and> map_option completed (data s1) = Some True
          \<and> success s2 \<and> map_option completed (data s2) = Some False
          \<and> map_option r_completed (get_row 1 db2) = Some 0)
   \<and> optimistic_reducer
        (optimistic_reducer (to_todo (hd (todos sample_db))) \<lparr>a_type = Toggle, a_data = None\<rparr>)
        \<lparr>a_type = Toggle, a_data = None\<rparr> = to_todo (hd (todos sample_db))"
proof -
  have h1: "store_inv sample_db"
    by (simp add: store_inv_def sample_db_def)
  have h2: "get_row 1 sample_db = Some (hd (todos sample_db))"
    by (simp add: get_row_def sample_db_def)
  have v: "completed (to_todo (hd (todos sample_db))) = False"
    "r_completed (hd (todos sample_db)) = 0"
    by (simp_all add: sample_db_def to_todo_def)
  show ?thesis
    using toggle_twice_restores [OF h1 h2, where ?t1.0 = 300 and ?t2.0 = 400
        and todo = "to_todo (hd (todos sample_db))" and ?d1.0 = None and ?d2.0 = None]
      h1 h2
    by (simp add: v)
qed

subsection \<open>Creating\<close>

lemma max_rowid_ge: "x \<in> set ids \<Longrightarrow> x \<le> max_rowid ids"
proof -
  assume x: "x \<in> set ids"
  have "max_rowid ids = Max (set (0 # ids))"
    unfolding max_rowid_def by (rule Max.set_eq_fold [symmetric])
  then show ?thesis
    using x by simp
qed

lemma find_append_last:
  "\<forall>x\<in>set xs. \<not> P x \<Longrightarrow> P y \<Longrightarrow> find P (xs @ [y]) = Some y"
  by (induction xs) simp_all

lemma create_result:
  fixes todo now db
  defines "rid \<equiv> Suc (max (todos_seq db) (max_rowid (map r_id (todos db))))"
  defines "r \<equiv> \<lparr>r_id = rid, r_title = n_title todo,
                  r_completed = of_boolean (n_completed todo),
                  r_category = Some (n_category todo), r_priority = Some (n_priority todo),
                  r_created_at = now, r_updated_at = now\<rparr>"
  shows "create todo now db =
           (Inr (to_todo r), (getDatabase db)\<lparr>todos := todos db @ [r], todos_seq := rid\<rparr>)"
    and "rid \<notin> set (map r_id (todos db))"
proof -
  have fresh: "\<forall>x\<in>set (todos db). r_id x \<noteq> rid"
  proof
    fix x assume "x \<in> set (todos db)"
    then have "r_id x \<le> max_rowid (map r_id (todos db))"
      by (intro max_rowid_ge) simp
    then show "r_id x \<noteq> rid"
      by (simp add: rid_def)
  qed
  then show "rid \<notin> set (map r_id (todos db))"
    by auto
  have "find (\<lambda>x. r_id x = rid) (todos db @ [r]) = Some r"
    using fresh by (intro find_append_last) (simp_all add: r_def)
  then show "create todo now db =
           (Inr (to_todo r), (getDatabase db)\<lparr>todos := todos db @ [r], todos_seq := rid\<rparr>)"
    by (simp add: create_def Let_def read_back_def get_row_def rid_def [symmetric] r_def [symmetric])
qed

text \<open>
  Claim C4. For every title whose trimmed length is between 1 and 200,
  \<^verbatim>\<open>createTodoAction\<close> succeeds: the todo it returns is not completed, carries the
  trimmed title, the current time and a fresh id, has the category and priority of the
  form or, where the form omits them, \<^verbatim>\<open>general\<close> and \<^verbatim>\<open>medium\<close>, and is appended to
  the table. For every title whose trimmed length exceeds 200 the action fails with
  the validation error and the file is unchanged. The witness takes the titles of 200
  and of 201 letters \<^verbatim>\<open>a\<close>.
\<close>

theorem create_title_length:
  assumes "formData ''title'' = Some t"
  shows "(1 \<le> length (trim t) \<and> length (trim t) \<le> 200 \<longrightarrow>
           (\<exists>d. fst (createTodoAction prevState formData now db) =
                  \<lparr>success = True, message = Some ''Todo created successfully!'',
                   error = None, data = Some d\<rparr>
              \<and> completed d = False \<and> title d = trim t
              \<and> createdAt d = now \<and> updatedAt d = now
              \<and> todo_id d \<notin> set (map r_id (todos db))
              \<and> category d = Some (or_default (formData ''category'') ''general'')
              \<and> priority d = Some (or_default (formData ''priority'') ''medium'')
              \<and> (formData ''category'' = None \<longrightarrow> category d = Some ''general'')
              \<and> (formData ''priority'' = None \<longrightarrow> priority d = Some ''medium'')
              \<and> map to_todo (todos (snd (createTodoAction prevState formData now db)))
                   = map to_todo (todos db) @ [d]))
         \<and> (200 < length (trim t) \<longrightarrow>
              createTodoAction prevState formData now db =
                (failure ''Todo title must be less than 200 characters'', db))"
proof (intro conjI impI)
  assume long: "200 < length (trim t)"
  then have tt: "trim t \<noteq> []" by auto
  then have "t \<noteq> []" by (cases t) (simp_all add: trim_def)
  then show "createTodoAction prevState formData now db =
                (failure ''Todo title must be less than 200 characters'', db)"
    using assms long tt by (simp add: createTodoAction_def)
next
  assume ok: "1 \<le> length (trim t) \<and> length (trim t) \<le> 200"
  then have tt: "trim t \<noteq> []" by auto
  then have t: "t \<noteq> []" by (cases t) (simp_all add: trim_def)
  let ?todo = "\<lparr>n_title = trim t, n_completed = False,
                n_category = or_default (formData ''category'') ''general'',
                n_priority = or_default (formData ''priority'') ''medium''\<rparr>"
  have act: "createTodoAction prevState formData now db =
      (case create ?todo now db of
         (Inl e, db') \<Rightarrow> (failure ''Failed to create todo. Please try again.'', db')
       | (Inr newTodo, db') \<Rightarrow>
           (\<lparr>success = True, message = Some ''Todo created successfully!'',
             error = None, data = Some newTodo\<rparr>, db'))"
    using assms ok t tt by (simp add: createTodoAction_def)
  show "\<exists>d. fst (createTodoAction prevState formData now db) =
                  \<lparr>success = True, message = Some ''Todo created successfully!'',
                   error = None, data = Some d\<rparr>
              \<and> completed d = False \<and> title d = trim t
              \<and> createdAt d = now \<and> updatedAt d = now
              \<and> todo_id d \<notin> set (map r_id (todos db))
              \<and> category d = Some (or_default (formData ''category'') ''general'')
              \<and> priority d = Some (or_default (formData ''priority'') ''medium'')
              \<and> (formData ''category'' = None \<longrightarrow> category d = Some ''general'')
              \<and> (formData ''priority'' = None \<longrightarrow> priority d = Some ''medium'')
              \<and> map to_todo (todos (snd (createTodoAction prevState formData now db)))
                   = map to_todo (todos db) @ [d]"
    using create_result(2) [of db]
    by (simp add: act create_result(1) to_todo_def of_boolean_def or_default_def)
qed

theorem create_title_length_witness:
  "[''title'' \<mapsto> replicate 200 CHR ''a''] ''title'' = Some (replicate 200 CHR ''a'')
   \<and> 1 \<le> length (trim (replicate 200 CHR ''a'')) \<and> length (trim (replicate 200 CHR ''a'')) \<le> 200
   \<and> (\<exists>d. fst (createTodoAction initial_state [''title'' \<mapsto> replicate 200 CHR ''a''] 300 sample_db) =
            \<lparr>success = True, message = Some ''Todo created successfully!'',
             error = None, data = Some d\<rparr>
          \<and> completed d = False \<and> category d = Some ''general'' \<and> priority d = Some ''medium'')
   \<and> [''title'' \<mapsto> replicate 201 CHR ''a''] ''title'' = Some (replicate 201 CHR ''a'')
   \<and> 200 < length (trim (replicate 201 CHR ''a''))
   \<and> createTodoAction initial_state [''title'' \<mapsto> replicate 201 CHR ''a''] 300 sample_db =
        (failure ''Todo title must be less than 200 characters'', sample_db)"
proof -
  have tr: "trim (replicate 200 CHR ''a'') = replicate 200 CHR ''a''"
    "trim (replicate 201 CHR ''a'') = replicate 201 CHR ''a''"
    by (rule trim_id; simp add: is_space_def)+
  show ?thesis
    using create_title_length [where formData = "[''title'' \<mapsto> replicate 200 CHR ''a'']"
        and t = "replicate 200 CHR ''a''" and prevState = initial_state and now = 300
        and db = sample_db]
      create_title_length [where formData = "[''title'' \<mapsto> replicate 201 CHR ''a'']"
        and t = "replicate 201 CHR ''a''" and prevState = initial_state and now = 300
        and db = sample_db]
    by (simp add: tr) blast
qed

subsection \<open>Categories and their counts\<close>

lemma seeded_rows:
  "seeded =
     [\<lparr>c_id = 1, c_name = ''general'', c_color = ''#6366f1''\<rparr>,
      \<lparr>c_id = 2, c_name = ''work'', c_color = ''#dc2626''\<rparr>,
      \<lparr>c_id = 3, c_name = ''personal'', c_color = ''#059669''\<rparr>,
      \<lparr>c_id = 4, c_name = ''shopping'', c_color = ''#d97706''\<rparr>]"
  by (simp add: seeded_def default_categories_def max_rowid_def)

lemma insert_or_ignore_seeded: "insert_or_ignore default_categories seeded = seeded"
  by (simp add: seeded_rows) (simp add: default_categories_def)

lemma categories_getDatabase:
  assumes "categories db = [] \<or> categories db = seeded"
  shows "categories (getDatabase db) = seeded"
  using assms
proof
  assume "categories db = []"
  then show ?thesis by (simp add: getDatabase_def seeded_def)
next
  assume "categories db = seeded"
  then show ?thesis by (simp add: getDatabase_def insert_or_ignore_seeded)
qed

lemma insert_or_ignore_keeps:
  "set (map c_name tbl) \<subseteq> set (map c_name (insert_or_ignore vs tbl))"
proof (induction vs tbl rule: insert_or_ignore.induct)
  case (1 tbl)
  then show ?case by simp
next
  case (2 n c vs tbl)
  then show ?case by (auto split: if_splits)
qed

lemma insert_or_ignore_names:
  "set (map fst vs) \<subseteq> set (map c_name (insert_or_ignore vs tbl))"
proof (induction vs tbl rule: insert_or_ignore.induct)
  case (1 tbl)
  then show ?case by simp
next
  case (2 n c vs tbl)
  show ?case
  proof (cases "n \<in> set (map c_name tbl)")
    case True
    then have "n \<in> set (map c_name (insert_or_ignore vs tbl))"
      using insert_or_ignore_keeps by blast
    then show ?thesis using 2 True by simp
  next
    case False
    let ?tbl = "tbl @ [\<lparr>c_id = Suc (max_rowid (map c_id tbl)), c_name = n, c_color = c\<rparr>]"
    have "n \<in> set (map c_name ?tbl)" by simp
    then have "n \<in> set (map c_name (insert_or_ignore vs ?tbl))"
      using insert_or_ignore_keeps by blast
    then show ?thesis using 2 False by simp
  qed
qed

lemma insert_or_ignore_present:
  "set (map fst vs) \<subseteq> set (map c_name tbl) \<Longrightarrow> insert_or_ignore vs tbl = tbl"
  by (induction vs tbl rule: insert_or_ignore.induct) simp_all

lemma getDatabase_idem: "getDatabase (getDatabase db) = getDatabase db"
proof -
  have "insert_or_ignore default_categories
          (insert_or_ignore default_categories (categories db))
        = insert_or_ignore default_categories (categories db)"
    by (rule insert_or_ignore_present) (rule insert_or_ignore_names)
  then show ?thesis
    by (simp add: getDatabase_def)
qed

lemma sort_seeded:
  "sort_key c_name seeded =
     [\<lparr>c_id = 1, c_name = ''general'', c_color = ''#6366f1''\<rparr>,
      \<lparr>c_id = 3, c_name = ''personal'', c_color = ''#059669''\<rparr>,
      \<lparr>c_id = 4, c_name = ''shopping'', c_color = ''#d97706''\<rparr>,
      \<lparr>c_id = 2, c_name = ''work'', c_color = ''#dc2626''\<rparr>]"
  by (simp add: seeded_rows less_eq_char_def)

lemma length_filter_sort_key:
  "length (filter P (sort_key k xs)) = length (filter P xs)"
proof -
  have "mset (filter P (sort_key k xs)) = mset (filter P xs)"
    by simp
  then show ?thesis
    by (metis size_mset)
qed

lemma count_getAll:
  "length (filter (\<lambda>t. category t = Some n) (getAll db))
     = length (filter (\<lambda>r. r_category r = Some n) (todos db))"
proof -
  have "filter (\<lambda>t. category t = Some n) (map to_todo rows)
          = map to_todo (filter (\<lambda>r. r_category r = Some n) rows)" for rows
    by (induction rows) (simp_all add: to_todo_def)
  then show ?thesis
    by (simp add: getAll_def length_filter_sort_key)
qed

text \<open>
  Claim C7. On every well-formed file \<^verbatim>\<open>getCategories\<close> returns exactly the four
  seeded categories in alphabetical order of their names (general, personal, shopping,
  work), whether or not a todo refers to them, and the count of each is the number of
  stored todos whose category equals its name.
\<close>

theorem getCategories_seeded_counts:
  assumes "store_inv db"
  shows "map name (getCategories db) = [''general'', ''personal'', ''shopping'', ''work'']
         \<and> sorted (map name (getCategories db))
         \<and> map color (getCategories db) = [''#6366f1'', ''#059669'', ''#d97706'', ''#dc2626'']
         \<and> (\<forall>c\<in>set (getCategories db).
               cat_count c = length (filter (\<lambda>t. category t = Some (name c)) (getAll db)))"
proof -
  have cats: "categories (getDatabase db) = seeded"
    using assms by (intro categories_getDatabase) (simp add: store_inv_def)
  have names: "map name (getCategories db) = [''general'', ''personal'', ''shopping'', ''work'']"
    by (simp add: getCategories_def cats sort_seeded)
  have srt: "sorted [''general'', ''personal'', ''shopping'', ''work'']"
    by (simp add: less_eq_char_def)
  have colors: "map color (getCategories db) = [''#6366f1'', ''#059669'', ''#d97706'', ''#dc2626'']"
    by (simp add: getCategories_def cats sort_seeded)
  have counts: "\<forall>c\<in>set (getCategories db).
               cat_count c = length (filter (\<lambda>t. category t = Some (name c)) (getAll db))"
    by (simp add: getCategories_def cats sort_seeded count_getAll)
  show ?thesis
    using names srt colors counts by simp
qed

theorem getCategories_seeded_counts_witness:
  "store_inv sample_db
   \<and> map name (getCategories sample_db) = [''general'', ''personal'', ''shopping'', ''work'']
   \<and> sorted (map name (getCategories sample_db))
   \<and> map cat_count (getCategories sample_db) = [0, 2, 1, 1]
   \<and> store_inv new_file
   \<and> map name (getCategories new_file) = [''general'', ''personal'', ''shopping'', ''work'']
   \<and> map cat_count (getCategories new_file) = [0, 0, 0, 0]"
proof -
  have h1: "store_inv sample_db"
    by (simp add: store_inv_def sample_db_def)
  have h2: "store_inv new_file"
    by (simp add: store_inv_def new_file_def)
  have c1: "map cat_count (getCategories sample_db) = [0, 2, 1, 1]"
    by (simp add: getCategories_def sample_getDatabase) (simp add: sample_db_def sort_seeded)
  have c2: "map cat_count (getCategories new_file) = [0, 0, 0, 0]"
    by (simp add: getCategories_def categories_getDatabase new_file_def sort_seeded)
  show ?thesis
    using getCategories_seeded_counts [OF h1] getCategories_seeded_counts [OF h2] h1 h2 c1 c2
    by simp
qed

subsection \<open>The order of \<^verbatim>\<open>getAll\<close>\<close>

text \<open>\<open>precedes\<close> is the order of positions.\<close>

lemma precedes_iff_nth:
  "precedes a b xs \<longleftrightarrow> (\<exists>i j. i < j \<and> j < length xs \<and> xs ! i = a \<and> xs ! j = b)"
proof (induction xs)
  case Nil
  then show ?case by simp
next
  case (Cons x xs)
  show ?case
  proof
    assume "precedes a b (x # xs)"
    then consider "x = a" "b \<in> set xs" | "precedes a b xs" by auto
    then show "\<exists>i j. i < j \<and> j < length (x # xs) \<and> (x # xs) ! i = a \<and> (x # xs) ! j = b"
    proof cases
      case 1
      then obtain k where "k < length xs" "xs ! k = b"
        by (auto simp: in_set_conv_nth)
      then have "0 < Suc k \<and> Suc k < length (x # xs) \<and> (x # xs) ! 0 = a \<and> (x # xs) ! Suc k = b"
        using 1 by simp
      then show ?thesis by blast
    next
      case 2
      then obtain i j where "i < j" "j < length xs" "xs ! i = a" "xs ! j = b"
        using Cons.IH by blast
      then have "Suc i < Suc j \<and> Suc j < length (x # xs) \<and> (x # xs) ! Suc i = a \<and> (x # xs) ! Suc j = b"
        by simp
      then show ?thesis by blast
    qed
  next
    assume "\<exists>i j. i < j \<and> j < length (x # xs) \<and> (x # xs) ! i = a \<and> (x # xs) ! j = b"
    then obtain i j where ij: "i < j" "j < length (x # xs)" "(x # xs) ! i = a" "(x # xs) ! j = b"
      by blast
    then obtain j' where j': "j = Suc j'" by (cases j) auto
    show "precedes a b (x # xs)"
    proof (cases i)
      case 0
      then have "x = a" "b \<in> set xs" using ij j' by auto
      then show ?thesis by simp
    next
      case (Suc i')
      then have "i' < j' \<and> j' < length xs \<and> xs ! i' = a \<and> xs ! j' = b"
        using ij j' by simp
      then have "precedes a b xs" using Cons.IH by blast
      then show ?thesis by simp
    qed
  qed
qed

lemma precedes_sorted_wrt: "sorted_wrt P xs \<Longrightarrow> precedes a b xs \<Longrightarrow> P a b"
  by (induction xs) auto

lemma precedes_total:
  "a \<in> set xs \<Longrightarrow> b \<in> set xs \<Longrightarrow> a \<noteq> b \<Longrightarrow> precedes a b xs \<or> precedes b a xs"
  by (induction xs) auto

lemma order_key_le:
  assumes "r_completed a = 0 \<or> r_completed a = 1" and "r_completed b = 0 \<or> r_completed b = 1"
    and "order_key a \<le> order_key b"
  shows "todo_le (to_todo a) (to_todo b)"
  using assms by (auto simp: order_key_def less_eq_prod_def todo_le_def to_todo_def)

lemma getAll_sorted:
  assumes "store_inv db"
  shows "sorted_wrt todo_le (getAll db)"
proof -
  let ?rows = "sort_key order_key (todos db)"
  have bits: "\<forall>r\<in>set ?rows. r_completed r = 0 \<or> r_completed r = 1"
    using assms by (simp add: store_inv_def list_all_iff)
  have "sorted (map order_key ?rows)"
    by (rule sorted_sort_key)
  then have srt: "sorted_wrt (\<lambda>a b. order_key a \<le> order_key b) ?rows"
    by (simp add: sorted_wrt_map)
  have "sorted_wrt (\<lambda>a b. todo_le (to_todo a) (to_todo b)) ?rows"
  proof (rule sorted_wrt_mono_rel [OF _ srt])
    fix x y
    assume "x \<in> set ?rows" and "y \<in> set ?rows" and "order_key x \<le> order_key y"
    then show "todo_le (to_todo x) (to_todo y)"
      using bits by (intro order_key_le) auto
  qed
  then show ?thesis
    by (simp add: getAll_def sorted_wrt_map)
qed

lemma getAll_mset: "mset (getAll db) = mset (map to_todo (todos db))"
  by (simp add: getAll_def)

text \<open>
  Claim C3, as the code has it. On every well-formed file \<^verbatim>\<open>getAll\<close> returns every
  stored todo; any incomplete todo precedes any completed one, whatever their
  timestamps; and for two todos \<open>A\<close>, \<open>B\<close> of the same completion status, \<open>A\<close> before
  \<open>B\<close> implies that \<open>A\<close> was created no earlier than \<open>B\<close>, and \<open>A\<close> created strictly
  later than \<open>B\<close> implies \<open>A\<close> before \<open>B\<close>. Two todos of equal status created within
  the same second come in either order.
\<close>

theorem getAll_order:
  assumes "store_inv db" and "A \<in> set (getAll db)" and "B \<in> set (getAll db)"
  shows "mset (getAll db) = mset (map to_todo (todos db))
         \<and> (\<not> completed A \<and> completed B \<longrightarrow> precedes A B (getAll db))
         \<and> (completed A = completed B \<and> precedes A B (getAll db)
              \<longrightarrow> createdAt B \<le> createdAt A)
         \<and> (completed A = completed B \<and> createdAt B < createdAt A
              \<longrightarrow> precedes A B (getAll db))"
proof (intro conjI impI)
  show "mset (getAll db) = mset (map to_todo (todos db))"
    by (rule getAll_mset)
next
  assume h: "\<not> completed A \<and> completed B"
  then have "A \<noteq> B" by auto
  then have "precedes A B (getAll db) \<or> precedes B A (getAll db)"
    using assms(2,3) by (intro precedes_total)
  moreover have "\<not> precedes B A (getAll db)"
  proof
    assume "precedes B A (getAll db)"
    with getAll_sorted [OF assms(1)] have "todo_le B A"
      by (rule precedes_sorted_wrt)
    then show False using h by (auto simp: todo_le_def)
  qed
  ultimately show "precedes A B (getAll db)" by blast
next
  assume h: "completed A = completed B \<and> precedes A B (getAll db)"
  then have "precedes A B (getAll db)" by simp
  with getAll_sorted [OF assms(1)] have "todo_le A B"
    by (rule precedes_sorted_wrt)
  then show "createdAt B \<le> createdAt A"
    using h by (auto simp: todo_le_def)
next
  assume h: "completed A = completed B \<and> createdAt B < createdAt A"
  then have "A \<noteq> B" by auto
  then have "precedes A B (getAll db) \<or> precedes B A (getAll db)"
    using assms(2,3) by (intro precedes_total)
  moreover have "\<not> precedes B A (getAll db)"
  proof
    assume "precedes B A (getAll db)"
    with getAll_sorted [OF assms(1)] have "todo_le B A"
      by (rule precedes_sorted_wrt)
    then show False using h by (auto simp: todo_le_def)
  qed
  ultimately show "precedes A B (getAll db)" by blast
qed

lemma sample_getAll: "getAll sample_db = [todo4, todo1, todo3, todo2]"
  by (simp add: getAll_def sample_getDatabase)
     (simp add: sample_db_def order_key_def to_todo_def todo1_def todo2_def todo3_def todo4_def)

lemma sample_store_inv: "store_inv sample_db"
  by (simp add: store_inv_def sample_db_def)

theorem getAll_order_witness:
  "store_inv sample_db
   \<and> todo1 \<in> set (getAll sample_db) \<and> todo2 \<in> set (getAll sample_db)
   \<and> todo3 \<in> set (getAll sample_db) \<and> todo4 \<in> set (getAll sample_db)
   \<and> mset (getAll sample_db) = mset (map to_todo (todos sample_db))
   \<and> (\<not> completed todo1 \<and> completed todo2) \<and> precedes todo1 todo2 (getAll sample_db)
   \<and> (completed todo1 = completed todo3 \<and> precedes todo1 todo3 (getAll sample_db))
   \<and> createdAt todo3 \<le> createdAt todo1
   \<and> (completed todo4 = completed todo1 \<and> createdAt todo1 < createdAt todo4)
   \<and> precedes todo4 todo1 (getAll sample_db)"
proof -
  have m: "todo1 \<in> set (getAll sample_db)" "todo2 \<in> set (getAll sample_db)"
    "todo3 \<in> set (getAll sample_db)" "todo4 \<in> set (getAll sample_db)"
    by (simp_all add: sample_getAll)
  have c: "\<not> completed todo1" "completed todo2" "\<not> completed todo3" "\<not> completed todo4"
    "createdAt todo1 < createdAt todo4"
    by (simp_all add: todo1_def todo2_def todo3_def todo4_def)
  have p: "precedes todo1 todo3 (getAll sample_db)"
    by (simp add: sample_getAll)
  show ?thesis
    using getAll_order [OF sample_store_inv m(1) m(2)]
      getAll_order [OF sample_store_inv m(1) m(3)]
      getAll_order [OF sample_store_inv m(4) m(1)]
      sample_store_inv m c p
    by simp
qed

text \<open>
  Claim C3 as stated fails on ties: the first and the third todo of the sample file are
  both incomplete and were created at the same time, so each was created no earlier
  than the other, but only one of them stands before the other.
\<close>

theorem getAll_order_ties_counterexample:
  "todo1 \<in> set (getAll sample_db) \<and> todo3 \<in> set (getAll sample_db) \<and> todo1 \<noteq> todo3
   \<and> completed todo3 = completed todo1
   \<and> createdAt todo3 \<ge> createdAt todo1 \<and> createdAt todo1 \<ge> createdAt todo3
   \<and> precedes todo1 todo3 (getAll sample_db)
   \<and> \<not> precedes todo3 todo1 (getAll sample_db)"
  by (simp add: sample_getAll) (simp add: todo1_def todo2_def todo3_def todo4_def)

subsection \<open>Searching\<close>









subsection \<open>What LIKE reads of a string\<close>










text \<open>On the file \<open>nul_db\<close>: the title \<^verbatim>\<open>x\0milk\<close> contains \<^verbatim>\<open>milk\<close> and is not found
  by that query, and the query \<^verbatim>\<open>a\0zzz\<close> finds the title \<^verbatim>\<open>a\<close>.\<close>

lemma search_nul_sample:
  "map todo_id (getAll nul_db) = [2, 1]"
  "map todo_id (search ''milk'' nul_db) = []"
  "map todo_id (search (''a'' @ [CHR 0x00] @ ''zzz'') nul_db) = [2]"
  by code_simp+



subsection \<open>Every write keeps the file well-formed\<close>

lemma store_inv_new_file: "store_inv new_file"
  by (simp add: store_inv_def new_file_def)

lemma store_inv_getDatabase:
  assumes "store_inv db"
  shows "store_inv (getDatabase db)"
proof -
  have "categories (getDatabase db) = seeded"
    using assms by (intro categories_getDatabase) (simp add: store_inv_def)
  then show ?thesis
    using assms by (simp add: store_inv_def)
qed

lemma store_inv_create:
  assumes "store_inv db"
  shows "store_inv (snd (create todo now db))"
proof -
  have "categories (getDatabase db) = seeded"
    using assms by (intro categories_getDatabase) (simp add: store_inv_def)
  then show ?thesis
    using assms create_result(2) [of db]
    by (simp add: create_result(1) store_inv_def of_boolean_def)
qed

lemma store_inv_update:
  assumes "store_inv db"
  shows "store_inv (snd (update i u now db))"
proof -
  have c: "categories (getDatabase db) = seeded"
    using assms by (intro categories_getDatabase) (simp add: store_inv_def)
  have b: "list_all (\<lambda>r. r_completed r = 0 \<or> r_completed r = 1)
             (map (\<lambda>r. if r_id r = i then set_fields u now r else r) (todos db))"
    using assms
    by (auto simp: store_inv_def list_all_iff set_fields_def of_boolean_def split: option.splits)
  show ?thesis
    using assms c b
    by (simp add: update_def Let_def store_inv_def map_ids_update del: map_map)
qed

lemma store_inv_delete:
  assumes "store_inv db"
  shows "store_inv (snd (delete i db))"
proof -
  have c: "categories (getDatabase db) = seeded"
    using assms by (intro categories_getDatabase) (simp add: store_inv_def)
  show ?thesis
    using assms c
    by (simp add: delete_def Let_def store_inv_def distinct_map_filter list_all_iff)
qed

end
